theory Spec2Isabelle
  imports Main "HOL-Library.AList"
begin

section \<open>Idempotency service (events-service, common/services/idempotency.service.ts)\<close>

text \<open>
  The service keeps a JavaScript \<open>Map<string, IdempotencyRecord>\<close>. A JavaScript map
  iterates in insertion order, \<open>set\<close> on a present key replaces the value in place and
  \<open>set\<close> on a new key appends: this is an association list with \<open>AList.update\<close>,
  \<open>AList.delete\<close> and \<open>map_of\<close>. Times are the integer milliseconds of \<open>Date.now()\<close>.
\<close>

record 'r IdempotencyRecord =
  key :: string
  response :: 'r
  timestamp :: int

type_synonym 'r cache = "(string \<times> 'r IdempotencyRecord) list"

definition ttlMs :: int where
  "ttlMs = 24 * 60 * 60 * 1000"

text \<open>
  One call of \<open>checkAndStore\<close> reads the clock up to three times: for the age of the
  record it found, for the timestamp of the record it stores, and in \<open>cleanupExpired\<close>.
\<close>

record times =
  nowCheck :: int
  nowStore :: int
  nowSweep :: int

text \<open>
  \<open>for (const [key, record] of this.cache.entries()) if (now - record.timestamp > ttlMs)
  this.cache.delete(key)\<close>: the loop visits the entries the map had when it started
  (deleting the visited entry does not disturb the iteration).
\<close>

definition cleanupExpired :: "int \<Rightarrow> 'r cache \<Rightarrow> 'r cache" where
  "cleanupExpired now c =
     fold (\<lambda>(k, record) c'. if now - timestamp record > ttlMs then AList.delete k c' else c') c c"

definition clear :: "'r cache \<Rightarrow> 'r cache" where
  "clear c = []"

text \<open>
  \<open>!key\<close> for \<open>key: string | undefined\<close>: true for \<open>undefined\<close> and for the empty string.
\<close>

definition falsy :: "string option \<Rightarrow> bool" where
  "falsy k = (case k of None \<Rightarrow> True | Some s \<Rightarrow> s = [])"

text \<open>
  The operation is an asynchronous effect on the world outside the service (the database
  behind \<open>eventsService\<close>): it maps the world to a result and the new world, \<open>Inl\<close> when the
  promise rejects. \<open>checkAndStore\<close> threads the cache and that world; what it prints on
  the console is left out.
  \<open>executeAndStore\<close> is the tail of the method from \<open>await operation()\<close> on: a rejected
  \<open>await\<close> leaves the method before \<open>cache.set\<close>.
\<close>

definition executeAndStore ::
  "string \<Rightarrow> ('w \<Rightarrow> ('e + 'r) \<times> 'w) \<Rightarrow> times \<Rightarrow> 'r cache \<times> 'w \<Rightarrow> ('e + 'r) \<times> 'r cache \<times> 'w"
where
  "executeAndStore ky operation t s =
     (case s of (c, w) \<Rightarrow>
        (case operation w of
           (Inl err, w') \<Rightarrow> (Inl err, c, w')
         | (Inr resp, w') \<Rightarrow>
             (Inr resp,
              cleanupExpired (nowSweep t)
                (AList.update ky \<lparr>key = ky, response = resp, timestamp = nowStore t\<rparr> c),
              w')))"

definition checkAndStore ::
  "string option \<Rightarrow> ('w \<Rightarrow> ('e + 'r) \<times> 'w) \<Rightarrow> times \<Rightarrow> 'r cache \<times> 'w \<Rightarrow> ('e + 'r) \<times> 'r cache \<times> 'w"
where
  "checkAndStore k operation t s =
     (case s of (c, w) \<Rightarrow>
        (case k of
           None \<Rightarrow> (case operation w of (res, w') \<Rightarrow> (res, c, w'))
         | Some ky \<Rightarrow>
             if falsy k then (case operation w of (res, w') \<Rightarrow> (res, c, w'))
             else
               (case map_of c ky of
                  Some existing \<Rightarrow>
                    if nowCheck t - timestamp existing < ttlMs
                    then (Inr (response existing), c, w)
                    else executeAndStore ky operation t (AList.delete ky c, w)
                | None \<Rightarrow> executeAndStore ky operation t (c, w))))"

section \<open>Retry with backoff (api-gateway, common/utils/retry.util.ts)\<close>

text \<open>
  The error objects the classifier inspects are JavaScript values of any shape: it reads
  their \<open>code\<close> and \<open>status\<close> properties and compares them with \<open>===\<close>, which is true
  only for values of the same type. The numbers of a configuration are integers in the
  model; a configuration with a non-integer number is outside it.
\<close>

datatype jsval = JUndefined | JString string | JNumber int

record jserror =
  name :: string
  message :: string
  code :: jsval
  status :: jsval

record RetryConfig =
  maxAttempts :: "int option"
  delayMs :: "int option"
  backoffMultiplier :: "int option"
  retryableErrors :: "string list option"

text \<open>The destructuring defaults of \<open>retryWithBackoff\<close>: a default applies to an absent field.\<close>

definition maxAttempts_of :: "RetryConfig \<Rightarrow> int" where
  "maxAttempts_of config = (case maxAttempts config of None \<Rightarrow> 3 | Some n \<Rightarrow> n)"

definition delayMs_of :: "RetryConfig \<Rightarrow> int" where
  "delayMs_of config = (case delayMs config of None \<Rightarrow> 1000 | Some d \<Rightarrow> d)"

definition backoffMultiplier_of :: "RetryConfig \<Rightarrow> int" where
  "backoffMultiplier_of config = (case backoffMultiplier config of None \<Rightarrow> 2 | Some m \<Rightarrow> m)"

definition retryableErrors_of :: "RetryConfig \<Rightarrow> string list" where
  "retryableErrors_of config =
     (case retryableErrors config of
        None \<Rightarrow> [''ECONNREFUSED'', ''ETIMEDOUT'', ''ENOTFOUND'']
      | Some codes \<Rightarrow> codes)"

definition isRetryable :: "string list \<Rightarrow> jserror \<Rightarrow> bool" where
  "isRetryable codes error =
     (list_ex (\<lambda>c. code error = JString c) codes
      \<or> status error = JNumber 503
      \<or> status error = JNumber 504)"

text \<open>
  The source observable is cold: every subscription runs the effect again, on the world
  \<open>'w\<close>, and ends with one value or one error. \<open>retryWhen\<close> subscribes once, hands the
  \<open>index\<close>-th error (counted from 0) to the \<open>mergeMap\<close> callback, and subscribes again
  when the \<open>timer(delay)\<close> that the callback returned fires; an error thrown by the callback
  ends the pipe with that error. A run records how many times the source was subscribed
  and the delays waited between subscriptions, oldest first.

  Line 40 computes \<open>delayMs * Math.pow(backoffMultiplier, index)\<close> in IEEE doubles and hands
  the result to \<open>timer\<close>. Doubles hold the integers up to \<open>Number.MAX_SAFE_INTEGER\<close>
  exactly, and a timer of Node waits the time it is given only from 1 ms to
  \<open>TIMEOUT_MAX\<close> (a delay outside is replaced). So the model records the delay as
  \<open>Some\<close> of the integer product where the two factors of the configuration are safe
  integers and the product lies in the range of the timer, where the code computes and
  waits exactly this; everywhere else it records \<open>None\<close> and does not say what is
  waited.
\<close>

definition MAX_SAFE_INTEGER :: int where
  "MAX_SAFE_INTEGER = 2 ^ 53 - 1"

definition TIMEOUT_MAX :: int where
  "TIMEOUT_MAX = 2 ^ 31 - 1"

definition timerExact :: "int \<Rightarrow> int \<Rightarrow> nat \<Rightarrow> bool" where
  "timerExact d b k =
     (\<bar>d\<bar> \<le> MAX_SAFE_INTEGER \<and> \<bar>b\<bar> \<le> MAX_SAFE_INTEGER
      \<and> 1 \<le> d * b ^ k \<and> d * b ^ k \<le> TIMEOUT_MAX)"

definition timerDelay :: "int \<Rightarrow> int \<Rightarrow> nat \<Rightarrow> int option" where
  "timerDelay d b k = (if timerExact d b k then Some (d * b ^ k) else None)"

record 'a run =
  outcome :: "jserror + 'a"
  subscriptions :: nat
  delays :: "int option list"

function retryLoop ::
  "RetryConfig \<Rightarrow> ('w \<Rightarrow> (jserror + 'a) \<times> 'w) \<Rightarrow> nat \<Rightarrow> 'w \<Rightarrow> 'a run \<times> 'w"
where
  "retryLoop config source index w =
     (case source w of
        (Inr v, w') \<Rightarrow> (\<lparr>outcome = Inr v, subscriptions = 1, delays = []\<rparr>, w')
      | (Inl error, w') \<Rightarrow>
          (let attempt = int index + 1 in
           if attempt \<ge> maxAttempts_of config \<or> \<not> isRetryable (retryableErrors_of config) error
           then (\<lparr>outcome = Inl error, subscriptions = 1, delays = []\<rparr>, w')
           else
             (let delay = timerDelay (delayMs_of config) (backoffMultiplier_of config) index in
              case retryLoop config source (Suc index) w' of
                (r, w'') \<Rightarrow>
                  (r\<lparr>subscriptions := Suc (subscriptions r), delays := delay # delays r\<rparr>, w''))))"
  by pat_completeness auto
termination
  by (relation "measure (\<lambda>(config, source, index, w). nat (maxAttempts_of config - int index))") auto

declare retryLoop.simps [simp del]

definition retryWithBackoff ::
  "RetryConfig \<Rightarrow> ('w \<Rightarrow> (jserror + 'a) \<times> 'w) \<Rightarrow> 'w \<Rightarrow> 'a run \<times> 'w"
where
  "retryWithBackoff config source w = retryLoop config source 0 w"


section \<open>Timeout operator\<close>

text \<open>
  A remote call is a cold observable that also tells how long its one notification takes
  to arrive, in milliseconds. \<open>timeout(due)\<close> of rxjs replaces a notification that takes
  longer than \<open>due\<close> by an error: rxjs's \<open>TimeoutError\<close>, an \<open>Error\<close> object with the
  name and message below and neither a \<open>code\<close> nor a \<open>status\<close> property. A notification
  arriving in exactly \<open>due\<close> milliseconds races with the timer; the model lets it pass.
\<close>

definition TimeoutError :: jserror where
  "TimeoutError =
     \<lparr>name = ''TimeoutError'', message = ''Timeout has occurred'',
      code = JUndefined, status = JUndefined\<rparr>"

definition timeout ::
  "int \<Rightarrow> ('w \<Rightarrow> (int \<times> (jserror + 'a)) \<times> 'w) \<Rightarrow> 'w \<Rightarrow> (jserror + 'a) \<times> 'w"
where
  "timeout due source w =
     (case source w of
        ((elapsed, res), w') \<Rightarrow> if due < elapsed then (Inl TimeoutError, w') else (res, w'))"

section \<open>Correlation id interceptor (api-gateway, common/interceptors/correlation-id.interceptor.ts)\<close>

text \<open>
  Node gives a request header as a string when present. \<open>a || b\<close> takes \<open>b\<close> when \<open>a\<close> is
  \<open>undefined\<close> or the empty string. \<open>randomUUID()\<close> is the identifier the call would
  draw; \<open>setHeader\<close> replaces a header of the same name. Names are compared as they are
  written: Node identifies header names whatever their case, so a response that already
  carries this header in another spelling is outside the model.
\<close>

record request =
  headers :: "(string \<times> string) list"
  req_correlationId :: "string option"

type_synonym response = "(string \<times> string) list"


section \<open>Gateway events controller (api-gateway, events/events.controller.ts)\<close>

text \<open>
  The fields of \<open>user\<close> and \<open>req.correlationId\<close> carry a prefix: \<open>id\<close> is the identity
  function of HOL, and \<open>correlationId\<close> is the field of the payload.
\<close>

record user =
  user_id :: string
  user_organizationId :: string
  user_role :: string

record payload =
  userId :: string
  organizationId :: string
  correlationId :: "string option"

record 'd create_payload = payload +
  dto :: 'd
  idempotencyKey :: "string option"

record 'q findAll_payload = payload +
  query :: 'q
  role :: string

definition create_message :: "'d \<Rightarrow> user \<Rightarrow> request \<Rightarrow> string option \<Rightarrow> 'd create_payload" where
  "create_message createEventDto usr req idemKey =
     \<lparr>userId = user_id usr, organizationId = user_organizationId usr,
      correlationId = req_correlationId req, dto = createEventDto, idempotencyKey = idemKey\<rparr>"

definition findAll_message :: "'q \<Rightarrow> user \<Rightarrow> request \<Rightarrow> 'q findAll_payload" where
  "findAll_message qry usr req =
     \<lparr>userId = user_id usr, organizationId = user_organizationId usr,
      correlationId = req_correlationId req, query = qry, role = user_role usr\<rparr>"

text \<open>
  \<open>send\<close> stands for \<open>this.eventsClient.send\<close>: given the message pattern and the payload
  it returns the cold observable of the remote call. \<open>firstValueFrom\<close> settles with the
  outcome of the pipe.
\<close>

definition gateway_create ::
  "(string \<Rightarrow> 'd create_payload \<Rightarrow> 'w \<Rightarrow> (int \<times> (jserror + 'a)) \<times> 'w)
     \<Rightarrow> 'd \<Rightarrow> user \<Rightarrow> request \<Rightarrow> string option \<Rightarrow> 'w \<Rightarrow> 'a run \<times> 'w"
where
  "gateway_create send createEventDto usr req idemKey =
     retryWithBackoff
       \<lparr>maxAttempts = Some 1, delayMs = None, backoffMultiplier = None, retryableErrors = None\<rparr>
       (timeout 10000 (send ''events.create'' (create_message createEventDto usr req idemKey)))"

definition gateway_findAll ::
  "(string \<Rightarrow> 'q findAll_payload \<Rightarrow> 'w \<Rightarrow> (int \<times> (jserror + 'a)) \<times> 'w)
     \<Rightarrow> 'q \<Rightarrow> user \<Rightarrow> request \<Rightarrow> 'w \<Rightarrow> 'a run \<times> 'w"
where
  "gateway_findAll send qry usr req =
     retryWithBackoff
       \<lparr>maxAttempts = Some 3, delayMs = None, backoffMultiplier = None, retryableErrors = None\<rparr>
       (timeout 10000 (send ''events.findAll'' (findAll_message qry usr req)))"

section \<open>Events-service controller (events-service, events/events.controller.ts)\<close>

text \<open>
  The handler of the pattern \<open>events.create\<close> wraps \<open>eventsService.create\<close>, an effect on
  the database, in \<open>checkAndStore\<close>.
\<close>

definition events_create ::
  "('d \<Rightarrow> string \<Rightarrow> string \<Rightarrow> 'db \<Rightarrow> (jserror + 'r) \<times> 'db)
     \<Rightarrow> 'd create_payload \<Rightarrow> times \<Rightarrow> 'r cache \<times> 'db \<Rightarrow> (jserror + 'r) \<times> 'r cache \<times> 'db"
where
  "events_create eventsService_create data t s =
     checkAndStore (idempotencyKey data)
       (eventsService_create (dto data) (userId data) (organizationId data)) t s"

text \<open>
  The TCP client of the gateway, connected to the events-service: each subscription of
  the observable of \<open>send\<close> transmits the message, the service runs the handler bound to
  the pattern and replies. The binding of patterns to handlers is the framework's: the
  model is given the handler and carries the pattern along. The service counts the
  messages it has handled; \<open>link n\<close> gives the round-trip time and the clock readings of
  the service for message number \<open>n\<close>. A reply is handed to the gateway as the handler
  returned it. The same is done with a failure, which is a simplification: the transport
  of the framework replaces an exception that is not an \<open>RpcException\<close> by a generic error
  object, so what the gateway sees of a failed handler is outside the model.
\<close>

record ('r, 'db) events_service =
  idempotency :: "'r cache"
  database :: 'db
  handled :: nat

definition eventsClient_send ::
  "('p \<Rightarrow> times \<Rightarrow> 'r cache \<times> 'db \<Rightarrow> (jserror + 'r) \<times> 'r cache \<times> 'db)
     \<Rightarrow> (nat \<Rightarrow> int \<times> times) \<Rightarrow> string \<Rightarrow> 'p
     \<Rightarrow> ('r, 'db) events_service \<Rightarrow> (int \<times> (jserror + 'r)) \<times> ('r, 'db) events_service"
where
  "eventsClient_send handler link cmd data svc =
     (case link (handled svc) of
        (rtt, t) \<Rightarrow>
          (case handler data t (idempotency svc, database svc) of
             (reply, c', db') \<Rightarrow>
               ((rtt, reply), \<lparr>idempotency = c', database = db', handled = Suc (handled svc)\<rparr>)))"

section \<open>Concrete inputs\<close>

text \<open>
  Small concrete operations, stores and transports on which the theorems below are run.
  The world of the idempotency examples is the number of times an operation has run.
\<close>

definition demo_submit :: "nat \<Rightarrow> (jserror + string) \<times> nat" where
  "demo_submit n = (Inr ''SUBMITTED'', Suc n)"

definition demo_other :: "nat \<Rightarrow> (jserror + string) \<times> nat" where
  "demo_other n = (Inr ''OTHER'', Suc n)"

definition demo_conflict :: jserror where
  "demo_conflict =
     \<lparr>name = ''ConflictException'', message = ''Conflict'', code = JUndefined, status = JNumber 409\<rparr>"

definition demo_failing :: "nat \<Rightarrow> (jserror + string) \<times> nat" where
  "demo_failing n = (Inl demo_conflict, Suc n)"

definition demo_record :: "int \<Rightarrow> string IdempotencyRecord" where
  "demo_record ts = \<lparr>key = ''submit-42'', response = ''SUBMITTED'', timestamp = ts\<rparr>"

definition demo_clock :: "int \<Rightarrow> times" where
  "demo_clock now = \<lparr>nowCheck = now, nowStore = now + 5, nowSweep = now + 5\<rparr>"

text \<open>A source that fails on every subscription with a listed code, each time with another message.\<close>

definition demo_refused :: "nat \<Rightarrow> (jserror + string) \<times> nat" where
  "demo_refused n =
     (Inl \<lparr>name = ''Error'', message = replicate (Suc n) (CHR ''!''),
           code = JString ''ECONNREFUSED'', status = JUndefined\<rparr>, Suc n)"

definition demo_bad_request :: jserror where
  "demo_bad_request =
     \<lparr>name = ''BadRequestException'', message = ''Bad Request'', code = JUndefined, status = JNumber 400\<rparr>"

definition demo_rejecting :: "nat \<Rightarrow> (jserror + string) \<times> nat" where
  "demo_rejecting n = (Inl demo_bad_request, Suc n)"

definition demo_policy :: "int \<Rightarrow> RetryConfig" where
  "demo_policy n =
     \<lparr>maxAttempts = Some n, delayMs = Some 1000, backoffMultiplier = Some 2, retryableErrors = None\<rparr>"

text \<open>A remote call that answers after 10001 ms; its world counts the messages sent.\<close>

definition demo_slow_send :: "string \<Rightarrow> 'p \<Rightarrow> nat \<Rightarrow> (int \<times> (jserror + string)) \<times> nat" where
  "demo_slow_send cmd data n = ((10001, Inr ''late''), Suc n)"

definition demo_user :: user where
  "demo_user = \<lparr>user_id = ''u1'', user_organizationId = ''org1'', user_role = ''USER''\<rparr>"

definition demo_request :: request where
  "demo_request = \<lparr>headers = [(''x-correlation-id'', ''test-123'')], req_correlationId = None\<rparr>"

definition demo_request_plain :: request where
  "demo_request_plain = \<lparr>headers = [(''x-correlation-id'', [])], req_correlationId = None\<rparr>"

text \<open>
  An events-service whose store holds a five-second-old record for the key \<open>submit-42\<close>;
  its database counts the events created.
\<close>

definition demo_eventsService_create :: "string \<Rightarrow> string \<Rightarrow> string \<Rightarrow> nat \<Rightarrow> (jserror + string) \<times> nat" where
  "demo_eventsService_create d uid org db = (Inr ''CREATED'', Suc db)"

definition demo_service :: "(string, nat) events_service" where
  "demo_service = \<lparr>idempotency = [(''submit-42'', demo_record 1000)], database = 0, handled = 0\<rparr>"

definition demo_link :: "nat \<Rightarrow> int \<times> times" where
  "demo_link n = (20, demo_clock 6000)"

section \<open>Facts about the store\<close>

lemmas demo_defs = demo_submit_def demo_other_def demo_conflict_def demo_failing_def
  demo_record_def demo_clock_def demo_refused_def demo_bad_request_def demo_rejecting_def
  demo_policy_def demo_slow_send_def demo_user_def demo_request_def demo_request_plain_def
  demo_eventsService_create_def demo_service_def demo_link_def

lemmas idem_defs = checkAndStore_def executeAndStore_def cleanupExpired_def falsy_def ttlMs_def

text \<open>The sweep, one entry after the other: a key loses its record when some visited
  entry of that key is too old, and keeps what it had otherwise.\<close>

lemma sweep_fold_map_of:
  "map_of (fold (\<lambda>(k, record) c'. if now - timestamp record > ttlMs then AList.delete k c' else c') es c) k
     = (if \<exists>r. (k, r) \<in> set es \<and> now - timestamp r > ttlMs then None else map_of c k)"
proof (induction es arbitrary: c)
  case Nil
  then show ?case by simp
next
  case (Cons e es)
  obtain k' r' where e: "e = (k', r')" by (cases e)
  show ?case
    unfolding e by (auto simp: Cons.IH delete_conv)
qed

lemma cleanupExpired_map_of:
  assumes "distinct (map fst c)"
  shows "map_of (cleanupExpired now c) k =
           (case map_of c k of None \<Rightarrow> None
            | Some r \<Rightarrow> if now - timestamp r > ttlMs then None else Some r)"
  using assms unfolding cleanupExpired_def sweep_fold_map_of
  by (auto split: option.splits dest: map_of_SomeD eq_key_imp_eq_value simp: map_of_eq_None_iff)

lemma cleanupExpired_keeps_or_drops:
  "map_of (cleanupExpired now c) k = None \<or> map_of (cleanupExpired now c) k = map_of c k"
  unfolding cleanupExpired_def sweep_fold_map_of by simp

lemma sweep_fold_distinct:
  "distinct (map fst c) \<Longrightarrow>
   distinct (map fst (fold (\<lambda>(k, record) c'. if now - timestamp record > ttlMs then AList.delete k c' else c') es c))"
  by (induction es arbitrary: c) (auto simp: distinct_delete)

lemma cleanupExpired_distinct:
  "distinct (map fst c) \<Longrightarrow> distinct (map fst (cleanupExpired now c))"
  unfolding cleanupExpired_def by (rule sweep_fold_distinct)

text \<open>The keys of the store stay distinct, as those of a JavaScript map are.\<close>

lemma checkAndStore_distinct:
  assumes "distinct (map fst c)"
  shows "distinct (map fst (fst (snd (checkAndStore k operation t (c, w)))))"
  using assms
  by (auto simp: checkAndStore_def executeAndStore_def cleanupExpired_distinct distinct_update
      distinct_delete split: option.splits prod.splits sum.splits)

lemma executeAndStore_runs_operation:
  "fst (executeAndStore k operation t (c, w)) = fst (operation w)
   \<and> snd (snd (executeAndStore k operation t (c, w))) = snd (operation w)"
  by (simp add: executeAndStore_def split: prod.splits sum.splits)

lemma executeAndStore_stored:
  assumes "executeAndStore k operation t (c, w) = (Inr r, c1, w1)"
    and "map_of c1 k = Some rec"
  shows "response rec = r"
proof -
  from assms(1) have c1: "c1 = cleanupExpired (nowSweep t)
      (AList.update k \<lparr>key = k, response = r, timestamp = nowStore t\<rparr> c)"
    by (auto simp: executeAndStore_def split: prod.splits sum.splits)
  from cleanupExpired_keeps_or_drops[of "nowSweep t" "AList.update k \<lparr>key = k, response = r, timestamp = nowStore t\<rparr> c" k]
  show ?thesis using assms(2) unfolding c1 by (auto simp: update_conv)
qed

lemma checkAndStore_failure:
  assumes "k \<noteq> []"
    and "checkAndStore (Some k) operation t (c, w) = (Inl e, c', w')"
  shows "operation w = (Inl e, w') \<and> c' = AList.delete k c \<and> map_of c' k = None
         \<and> checkAndStore (Some k) op2 t2 (c', w') = executeAndStore k op2 t2 (c', w')"
proof -
  have 1: "operation w = (Inl e, w') \<and> c' = AList.delete k c"
    using assms
    by (auto simp: checkAndStore_def executeAndStore_def falsy_def map_of_eq_None_iff
        split: option.splits if_splits prod.splits sum.splits)
  then have 2: "map_of c' k = None" by (simp add: delete_conv)
  then show ?thesis using 1 assms(1) by (simp add: checkAndStore_def falsy_def)
qed

text \<open>
  Keys are only removed by the sweep, and a call adds at most its own non-empty key: a
  store that starts without a record under the empty key never gets one. After a
  successful \<open>await\<close> the record is in the store, provided the sweep does not run more than
  24 hours after the timestamp was taken.
\<close>

lemma sweep_fold_keys:
  "fst ` set (fold (\<lambda>(k, record) c'. if now - timestamp record > ttlMs then AList.delete k c' else c') es c)
     \<subseteq> fst ` set c"
proof (induction es arbitrary: c)
  case Nil
  then show ?case by simp
next
  case (Cons e es)
  obtain k' r' where e: "e = (k', r')" by (cases e)
  show ?case
  proof (cases "now - timestamp r' > ttlMs")
    case True
    have "fst ` set (AList.delete k' c) \<subseteq> fst ` set c"
      by (rule dom_delete_subset)
    with Cons.IH[of "AList.delete k' c"] show ?thesis
      unfolding e using True by simp
  next
    case False
    with Cons.IH[of c] show ?thesis unfolding e by simp
  qed
qed

lemma cleanupExpired_keys: "fst ` set (cleanupExpired now c) \<subseteq> fst ` set c"
  unfolding cleanupExpired_def by (rule sweep_fold_keys)

lemma executeAndStore_keys:
  "fst ` set (fst (snd (executeAndStore ky operation t (c, w)))) \<subseteq> insert ky (fst ` set c)"
proof (cases "operation w")
  case (Pair res w')
  show ?thesis
  proof (cases res)
    case (Inl err)
    with Pair show ?thesis by (auto simp: executeAndStore_def)
  next
    case (Inr resp)
    have "fst ` set (cleanupExpired (nowSweep t)
            (AList.update ky \<lparr>key = ky, response = resp, timestamp = nowStore t\<rparr> c))
          \<subseteq> fst ` set (AList.update ky \<lparr>key = ky, response = resp, timestamp = nowStore t\<rparr> c)"
      by (rule cleanupExpired_keys)
    then show ?thesis using Pair Inr by (simp add: executeAndStore_def dom_update)
  qed
qed

lemma checkAndStore_no_empty_key:
  assumes "[] \<notin> fst ` set c"
  shows "[] \<notin> fst ` set (fst (snd (checkAndStore k operation t (c, w))))"
proof (cases "falsy k")
  case True
  then show ?thesis using assms
    by (simp add: checkAndStore_def falsy_def split: option.splits prod.splits)
next
  case False
  then obtain ky where k: "k = Some ky" and ky: "ky \<noteq> []"
    by (auto simp: falsy_def split: option.splits)
  have del: "[] \<notin> fst ` set (AList.delete ky c)"
    using assms dom_delete_subset[of ky c] by blast
  have a: "[] \<notin> fst ` set (fst (snd (executeAndStore ky operation t (c, w))))"
    using executeAndStore_keys[of ky operation t c w] assms ky by blast
  have b: "[] \<notin> fst ` set (fst (snd (executeAndStore ky operation t (AList.delete ky c, w))))"
    using executeAndStore_keys[of ky operation t "AList.delete ky c" w] del ky by blast
  show ?thesis
    using False a b assms unfolding k
    by (simp add: checkAndStore_def split: option.splits)
qed

lemma executeAndStore_records:
  assumes "executeAndStore k operation t (c, w) = (Inr r, c1, w1)"
    and "distinct (map fst c)" and "nowSweep t - nowStore t \<le> ttlMs"
  shows "map_of c1 k = Some \<lparr>key = k, response = r, timestamp = nowStore t\<rparr>"
proof -
  from assms(1) have c1: "c1 = cleanupExpired (nowSweep t)
      (AList.update k \<lparr>key = k, response = r, timestamp = nowStore t\<rparr> c)"
    by (auto simp: executeAndStore_def split: prod.splits sum.splits)
  have "distinct (map fst (AList.update k \<lparr>key = k, response = r, timestamp = nowStore t\<rparr> c))"
    using assms(2) by (simp add: distinct_update)
  then show ?thesis
    unfolding c1 using assms(3) by (simp add: cleanupExpired_map_of update_conv)
qed

section \<open>Idempotency: replay, expiry, failures, keys\<close>

text \<open>
  C3. A key seen a second time while its stored record is younger than 24 hours: the
  second call returns the result the first call returned, which is the response of the
  stored record, and leaves the store and the world as they were, whatever operation
  \<open>op2\<close> (built from whatever payload) the second call carries. The operation is not
  invoked: the world it would have changed is returned unchanged.
\<close>

theorem idempotency_replay:
  assumes "k \<noteq> []"
    and "checkAndStore (Some k) op1 t1 (c, w) = (Inr r, c1, w1)"
    and "map_of c1 k = Some rec"
    and "nowCheck t2 - timestamp rec < ttlMs"
  shows "response rec = r \<and> checkAndStore (Some k) op2 t2 (c1, w1) = (Inr r, c1, w1)"
proof -
  have "response rec = r"
    using assms(1,2,3)
    by (auto simp: checkAndStore_def falsy_def
        split: option.splits if_splits dest: executeAndStore_stored)
  then show ?thesis
    using assms by (simp add: checkAndStore_def falsy_def)
qed

theorem idempotency_replay_witness:
  "checkAndStore (Some ''submit-42'') demo_other (demo_clock 6000) ([(''submit-42'', demo_record 1005)], Suc 0)
     = (Inr ''SUBMITTED'', [(''submit-42'', demo_record 1005)], Suc 0)"
proof -
  have h1: "''submit-42'' \<noteq> []" by simp
  have h2: "checkAndStore (Some ''submit-42'') demo_submit (demo_clock 1000) ([], 0)
              = (Inr ''SUBMITTED'', [(''submit-42'', demo_record 1005)], Suc 0)"
    by (simp add: idem_defs demo_defs)
  have h3: "map_of [(''submit-42'', demo_record 1005)] ''submit-42'' = Some (demo_record 1005)"
    by simp
  have h4: "nowCheck (demo_clock 6000) - timestamp (demo_record 1005) < ttlMs"
    by (simp add: demo_defs ttlMs_def)
  from idempotency_replay[OF h1 h2 h3 h4, of demo_other] show ?thesis by simp
qed

text \<open>
  C6, as the claim states it, fails where the key has an expired record: the call deletes
  that record before it runs the operation, so the failed call changes the store. Here the
  record is 25 hours old and the operation rejects.
\<close>

theorem failed_call_changes_store:
  "fst (checkAndStore (Some ''submit-42'') demo_failing (demo_clock 90001000)
          ([(''submit-42'', demo_record 1000)], 0)) = Inl demo_conflict
   \<and> fst (snd (checkAndStore (Some ''submit-42'') demo_failing (demo_clock 90001000)
          ([(''submit-42'', demo_record 1000)], 0))) \<noteq> [(''submit-42'', demo_record 1000)]"
  by (simp add: idem_defs demo_defs)

text \<open>
  C6, amended. A keyed call that reaches its operation (the key has no record, or one that
  has expired) and whose operation fails: the call returns that failure; the store
  afterwards is the store before without the expired record of the key, if there was one,
  and holds no record for the key; a later call with the same key runs its operation (its
  result and its world are those of the operation).
\<close>

theorem failed_call_not_stored:
  assumes "k \<noteq> []"
    and "operation w = (Inl e, w')"
    and "case map_of c k of None \<Rightarrow> True | Some rec \<Rightarrow> ttlMs \<le> nowCheck t - timestamp rec"
    and "c' = (case map_of c k of None \<Rightarrow> c | Some expired \<Rightarrow> AList.delete k c)"
  shows "checkAndStore (Some k) operation t (c, w) = (Inl e, c', w')
         \<and> map_of c' k = None
         \<and> fst (checkAndStore (Some k) op2 t2 (c', w')) = fst (op2 w')
         \<and> snd (snd (checkAndStore (Some k) op2 t2 (c', w'))) = snd (op2 w')"
proof -
  have call: "checkAndStore (Some k) operation t (c, w) = (Inl e, c', w')"
    using assms
    by (auto simp: checkAndStore_def executeAndStore_def falsy_def split: option.splits)
  from checkAndStore_failure[OF assms(1) call, of op2 t2]
  have 3: "map_of c' k = None"
    and 4: "checkAndStore (Some k) op2 t2 (c', w') = executeAndStore k op2 t2 (c', w')"
    by blast+
  show ?thesis
    using call 3 unfolding 4 by (simp add: executeAndStore_runs_operation)
qed

theorem failed_call_not_stored_witness:
  "checkAndStore (Some ''submit-42'') demo_failing (demo_clock 90001000)
       ([(''submit-42'', demo_record 1000)], 0) = (Inl demo_conflict, [], Suc 0)
   \<and> map_of ([] :: string cache) ''submit-42'' = None
   \<and> fst (checkAndStore (Some ''submit-42'') demo_submit (demo_clock 90002000) ([], Suc 0))
       = Inr ''SUBMITTED''
   \<and> snd (snd (checkAndStore (Some ''submit-42'') demo_submit (demo_clock 90002000) ([], Suc 0)))
       = Suc (Suc 0)"
proof -
  have h1: "''submit-42'' \<noteq> []" by simp
  have h2: "demo_failing 0 = (Inl demo_conflict, Suc 0)" by (simp add: demo_failing_def)
  have h3: "case map_of [(''submit-42'', demo_record 1000)] ''submit-42'' of None \<Rightarrow> True
            | Some rec \<Rightarrow> ttlMs \<le> nowCheck (demo_clock 90001000) - timestamp rec"
    by (simp add: ttlMs_def demo_defs)
  have h4: "[] = (case map_of [(''submit-42'', demo_record 1000)] ''submit-42'' of
                    None \<Rightarrow> [(''submit-42'', demo_record 1000)]
                  | Some expired \<Rightarrow> AList.delete ''submit-42'' [(''submit-42'', demo_record 1000)])"
    by simp
  from failed_call_not_stored[where k = "''submit-42''" and operation = demo_failing and w = 0
      and e = demo_conflict and w' = "Suc 0" and c = "[(''submit-42'', demo_record 1000)]"
      and t = "demo_clock 90001000" and c' = "[]" and ?op2.0 = demo_submit
      and ?t2.0 = "demo_clock 90002000", OF h1 h2 h3 h4]
  show ?thesis by (simp add: demo_submit_def)
qed

text \<open>
  C9. For a key with a stored record: the call answers from the store exactly when the age
  of the record is below the TTL; from an age of the TTL on it deletes the record and runs
  the operation, whose result it returns. The sweep is laxer by one millisecond: it drops
  the record only when its age is above the TTL, so a record of exactly the TTL survives a
  sweep and is still refused on lookup.
\<close>

theorem ttl_boundary:
  assumes "k \<noteq> []" and "distinct (map fst c)" and "map_of c k = Some rec"
  shows "(nowCheck t - timestamp rec < ttlMs \<longrightarrow>
            checkAndStore (Some k) operation t (c, w) = (Inr (response rec), c, w))
       \<and> (ttlMs \<le> nowCheck t - timestamp rec \<longrightarrow>
            checkAndStore (Some k) operation t (c, w)
              = executeAndStore k operation t (AList.delete k c, w)
            \<and> fst (checkAndStore (Some k) operation t (c, w)) = fst (operation w))
       \<and> map_of (cleanupExpired now c) k
            = (if ttlMs < now - timestamp rec then None else Some rec)"
  using assms
  by (simp add: checkAndStore_def falsy_def cleanupExpired_map_of executeAndStore_runs_operation)

theorem ttl_boundary_witness:
  "checkAndStore (Some ''submit-42'') demo_other (demo_clock 86401000)
       ([(''submit-42'', demo_record 1000)], 0)
     = executeAndStore ''submit-42'' demo_other (demo_clock 86401000) ([], 0)
   \<and> fst (checkAndStore (Some ''submit-42'') demo_other (demo_clock 86401000)
       ([(''submit-42'', demo_record 1000)], 0)) = Inr ''OTHER''
   \<and> map_of (cleanupExpired 86401000 [(''submit-42'', demo_record 1000)]) ''submit-42''
       = Some (demo_record 1000)"
proof -
  have h1: "''submit-42'' \<noteq> []" by simp
  have h2: "distinct (map fst [(''submit-42'', demo_record 1000)])" by simp
  have h3: "map_of [(''submit-42'', demo_record 1000)] ''submit-42'' = Some (demo_record 1000)"
    by simp
  have h4: "ttlMs \<le> nowCheck (demo_clock 86401000) - timestamp (demo_record 1000)"
    by (simp add: ttlMs_def demo_defs)
  have h5: "\<not> ttlMs < 86401000 - timestamp (demo_record 1000)"
    by (simp add: ttlMs_def demo_defs)
  from ttl_boundary[OF h1 h2 h3, of "demo_clock 86401000" demo_other 0 86401000] h4 h5
  show ?thesis by (simp add: demo_other_def executeAndStore_runs_operation)
qed

text \<open>
  C10. The empty string as key is the absent key: both calls are equal, and each returns
  the result of running the operation once on the world, with the store untouched (it is
  neither read, the result not depending on it, nor written).
\<close>

theorem empty_key_is_no_key:
  "checkAndStore (Some []) operation t (c, w) = checkAndStore None operation t (c, w)
   \<and> checkAndStore None operation t (c, w) = (fst (operation w), c, snd (operation w))"
  by (simp add: checkAndStore_def falsy_def split: prod.splits)

theorem empty_key_is_no_key_witness:
  "checkAndStore (Some []) demo_other (demo_clock 6000) ([(''submit-42'', demo_record 1000)], 0)
     = (Inr ''OTHER'', [(''submit-42'', demo_record 1000)], Suc 0)"
  using empty_key_is_no_key[of demo_other "demo_clock 6000" "[(''submit-42'', demo_record 1000)]" 0]
  by (simp add: demo_other_def)

section \<open>Facts about the retry loop and the timeout\<close>

lemma isRetryable_iff:
  "isRetryable codes e =
     (code e \<in> JString ` set codes \<or> status e = JNumber 503 \<or> status e = JNumber 504)"
  by (auto simp: isRetryable_def list_ex_iff)

lemma TimeoutError_not_retryable: "\<not> isRetryable codes TimeoutError"
  by (auto simp: isRetryable_iff TimeoutError_def)

lemma retryLoop_success:
  assumes "source w = (Inr v, w')"
  shows "retryLoop config source index w = (\<lparr>outcome = Inr v, subscriptions = 1, delays = []\<rparr>, w')"
  using assms by (simp add: retryLoop.simps)

lemma retryLoop_not_retryable:
  assumes "source w = (Inl e, w')" and "\<not> isRetryable (retryableErrors_of config) e"
  shows "retryLoop config source index w = (\<lparr>outcome = Inl e, subscriptions = 1, delays = []\<rparr>, w')"
  using assms by (simp add: retryLoop.simps)


lemma retryLoop_again:
  assumes "source w = (Inl e, w')" and "int index + 1 < maxAttempts_of config"
    and "isRetryable (retryableErrors_of config) e"
  shows "retryLoop config source index w =
    (case retryLoop config source (Suc index) w' of
       (r, w'') \<Rightarrow> (r\<lparr>subscriptions := Suc (subscriptions r),
           delays := timerDelay (delayMs_of config) (backoffMultiplier_of config) index # delays r\<rparr>, w''))"
  using assms by (subst retryLoop.simps) (simp add: Let_def)



lemmas retry_defs = retryWithBackoff_def maxAttempts_of_def delayMs_of_def
  backoffMultiplier_of_def retryableErrors_of_def isRetryable_def

lemma retryLoop_subscribes: "0 < subscriptions (fst (retryLoop config source index w))"
proof (cases "source w")
  case (Pair res w')
  show ?thesis
  proof (cases res)
    case (Inr v)
    with Pair show ?thesis by (simp add: retryLoop_success)
  next
    case (Inl e)
    show ?thesis
    proof (cases "maxAttempts_of config \<le> int index + 1 \<or> \<not> isRetryable (retryableErrors_of config) e")
      case True
      with Pair Inl show ?thesis by (subst retryLoop.simps) simp
    next
      case False
      with Pair Inl show ?thesis
        by (subst retryLoop.simps) (simp add: Let_def split: prod.splits)
    qed
  qed
qed

lemma timeout_exceeded:
  assumes "source w = ((elapsed, res), w')" and "due < elapsed"
  shows "timeout due source w = (Inl TimeoutError, w')"
  using assms by (simp add: timeout_def)

lemma timeout_in_time:
  assumes "source w = ((elapsed, res), w')" and "elapsed \<le> due"
  shows "timeout due source w = (res, w')"
  using assms by (simp add: timeout_def)

section \<open>Retry: exhaustion, fail-fast, classification\<close>

text \<open>
  C7. A failure that the classifier does not accept, on the first attempt: the source is
  subscribed once, no delay is waited and that failure is the outcome, whatever
  \<open>maxAttempts\<close> is.
\<close>

theorem non_retryable_fails_fast:
  assumes "source w = (Inl e, w')" and "\<not> isRetryable (retryableErrors_of config) e"
  shows "retryWithBackoff config source w = (\<lparr>outcome = Inl e, subscriptions = 1, delays = []\<rparr>, w')"
  unfolding retryWithBackoff_def using assms by (rule retryLoop_not_retryable)

theorem non_retryable_fails_fast_witness:
  "retryWithBackoff (demo_policy 1000000) demo_rejecting 0
     = (\<lparr>outcome = Inl demo_bad_request, subscriptions = 1, delays = []\<rparr>, Suc 0)"
proof -
  have h1: "demo_rejecting 0 = (Inl demo_bad_request, Suc 0)" by (simp add: demo_rejecting_def)
  have h2: "\<not> isRetryable (retryableErrors_of (demo_policy 1000000)) demo_bad_request"
    by (simp add: retry_defs demo_defs)
  from non_retryable_fails_fast[of demo_rejecting 0 demo_bad_request "Suc 0" "demo_policy 1000000", OF h1 h2]
  show ?thesis .
qed




text \<open>
  C5. A failure is retryable exactly when its code is one of the configured codes or its
  status is 503 (service unavailable) or 504 (gateway timeout); with no code configured
  at all, exactly the failures of status 503 and 504 are retryable. This is the test the
  loop applies: a failure observed with attempts remaining is followed by another
  subscription exactly when it passes.
\<close>

theorem retryable_classification:
  "isRetryable codes e =
     (code e \<in> JString ` set codes \<or> status e = JNumber 503 \<or> status e = JNumber 504)
   \<and> isRetryable [] e = (status e = JNumber 503 \<or> status e = JNumber 504)
   \<and> (source w = (Inl e, w') \<and> int index + 1 < maxAttempts_of config \<longrightarrow>
        (1 < subscriptions (fst (retryLoop config source index w)))
          = (code e \<in> JString ` set (retryableErrors_of config)
             \<or> status e = JNumber 503 \<or> status e = JNumber 504))"
proof -
  have loop: "(1 < subscriptions (fst (retryLoop config source index w)))
          = isRetryable (retryableErrors_of config) e"
    if src: "source w = (Inl e, w')" and more: "int index + 1 < maxAttempts_of config"
  proof (cases "isRetryable (retryableErrors_of config) e")
    case True
    have "retryLoop config source index w =
      (case retryLoop config source (Suc index) w' of
         (r, w'') \<Rightarrow> (r\<lparr>subscriptions := Suc (subscriptions r),
           delays := timerDelay (delayMs_of config) (backoffMultiplier_of config) index # delays r\<rparr>, w''))"
      using src more True by (rule retryLoop_again)
    then have "subscriptions (fst (retryLoop config source index w))
        = Suc (subscriptions (fst (retryLoop config source (Suc index) w')))"
      by (simp split: prod.splits)
    with retryLoop_subscribes[of config source "Suc index" w'] True show ?thesis by simp
  next
    case False
    have "retryLoop config source index w
        = (\<lparr>outcome = Inl e, subscriptions = 1, delays = []\<rparr>, w')"
      using src False by (rule retryLoop_not_retryable)
    with False show ?thesis by simp
  qed
  show ?thesis
    using loop by (auto simp: isRetryable_iff)
qed

theorem retryable_classification_witness:
  "isRetryable [] (demo_bad_request\<lparr>status := JNumber 504\<rparr>)
   \<and> \<not> isRetryable [''ECONNREFUSED''] demo_bad_request
   \<and> 1 < subscriptions (fst (retryLoop (demo_policy 3) demo_refused 0 0))"
proof -
  have h1: "demo_refused 0 = (Inl \<lparr>name = ''Error'', message = ''!'',
           code = JString ''ECONNREFUSED'', status = JUndefined\<rparr>, Suc 0)"
    by (simp add: demo_refused_def)
  have h2: "int 0 + 1 < maxAttempts_of (demo_policy 3)"
    by (simp add: demo_policy_def maxAttempts_of_def)
  have a: "isRetryable [] (demo_bad_request\<lparr>status := JNumber 504\<rparr>)"
    using retryable_classification[of "[]" "demo_bad_request\<lparr>status := JNumber 504\<rparr>"
        demo_refused 0 "Suc 0" 0 "demo_policy 3"]
    by (simp add: demo_bad_request_def)
  have b: "\<not> isRetryable [''ECONNREFUSED''] demo_bad_request"
    using retryable_classification[of "[''ECONNREFUSED'']" demo_bad_request
        demo_refused 0 "Suc 0" 0 "demo_policy 3"]
    by (simp add: demo_bad_request_def)
  have c: "1 < subscriptions (fst (retryLoop (demo_policy 3) demo_refused 0 0))"
    using retryable_classification[of "[]" "\<lparr>name = ''Error'', message = ''!'',
           code = JString ''ECONNREFUSED'', status = JUndefined\<rparr>"
        demo_refused 0 "Suc 0" 0 "demo_policy 3"] h1 h2
    by (simp add: demo_policy_def retryableErrors_of_def)
  from a b c show ?thesis by simp
qed

section \<open>Gateway calls: timeout, idempotent replay, correlation id\<close>

text \<open>
  C2, as the claim states it, fails: the error of the timeout operator has no \<open>code\<close> and
  no \<open>status\<close>, so the classifier with its default codes rejects it, and \<open>findAll\<close>, with
  three attempts allowed, gives up after the one call that took 10001 ms.
\<close>

theorem timeout_error_fails_findAll:
  "\<not> isRetryable [''ECONNREFUSED'', ''ETIMEDOUT'', ''ENOTFOUND''] TimeoutError
   \<and> gateway_findAll demo_slow_send ''q'' demo_user demo_request 0
       = (\<lparr>outcome = Inl TimeoutError, subscriptions = 1, delays = []\<rparr>, 1)"
  by (simp add: gateway_findAll_def retry_defs retryLoop.simps timeout_def demo_slow_send_def
      TimeoutError_def)

text \<open>
  C2, amended. A remote round-trip that takes longer than the timeout ends the call at
  once: the timeout error is not retryable under any configured list of codes, the source
  is subscribed once and no delay is waited, however many attempts remain. (Failures
  with a configured code, \<open>ETIMEDOUT\<close> by default, or with status 503 or 504 are the ones
  retried.)
\<close>

theorem timeout_not_retried:
  assumes "source w = ((elapsed, res), w')" and "due < elapsed"
  shows "\<not> isRetryable (retryableErrors_of config) TimeoutError
         \<and> retryWithBackoff config (timeout due source) w
             = (\<lparr>outcome = Inl TimeoutError, subscriptions = 1, delays = []\<rparr>, w')"
proof -
  have "timeout due source w = (Inl TimeoutError, w')"
    using assms by (rule timeout_exceeded)
  then have "retryLoop config (timeout due source) 0 w
      = (\<lparr>outcome = Inl TimeoutError, subscriptions = 1, delays = []\<rparr>, w')"
    using TimeoutError_not_retryable by (rule retryLoop_not_retryable)
  then show ?thesis
    by (simp add: retryWithBackoff_def TimeoutError_not_retryable)
qed

theorem timeout_not_retried_witness:
  "retryWithBackoff (demo_policy 3) (timeout 10000 (demo_slow_send ''events.findAll'' ''q'')) 0
     = (\<lparr>outcome = Inl TimeoutError, subscriptions = 1, delays = []\<rparr>, Suc 0)"
proof -
  have h1: "demo_slow_send ''events.findAll'' ''q'' 0 = ((10001, Inr ''late''), Suc 0)"
    by (simp add: demo_slow_send_def)
  have h2: "(10000::int) < 10001" by simp
  from timeout_not_retried[of "demo_slow_send ''events.findAll'' ''q''" 0 10001 "Inr ''late''" "Suc 0"
      10000 "demo_policy 3", OF h1 h2]
  show ?thesis by simp
qed

text \<open>
  C1, as the claim states it, fails: the gateway holds no store. It always sends the
  message, under the timeout and the retry pipe, and the events-service answers from its
  store. Here the key \<open>submit-42\<close> has a fresh record: the service has handled one message
  and the source was subscribed once.
\<close>

theorem cache_hit_still_calls_service:
  "gateway_create (eventsClient_send (events_create demo_eventsService_create) demo_link)
      ''dto'' demo_user demo_request (Some ''submit-42'') demo_service
     = (\<lparr>outcome = Inr ''SUBMITTED'', subscriptions = 1, delays = []\<rparr>,
        \<lparr>idempotency = [(''submit-42'', demo_record 1000)], database = 0, handled = 1\<rparr>)"
  by (simp add: gateway_create_def retry_defs retryLoop.simps timeout_def eventsClient_send_def
      events_create_def create_message_def idem_defs demo_defs)

text \<open>
  C1, amended. A \<open>create\<close> carrying a key that has a fresh record in the store of the
  events-service costs exactly one remote call: the service handles one message, answers
  with the stored response without running \<open>eventsService.create\<close> (its database and store
  are unchanged), and the gateway returns that response when it arrives within the 10
  seconds of the timeout, the timeout error otherwise; there is no retry and no delay.
\<close>

theorem cache_hit_one_remote_call:
  assumes "k \<noteq> []" and "map_of (idempotency svc) k = Some rec"
    and "link (handled svc) = (rtt, t)" and "nowCheck t - timestamp rec < ttlMs"
  shows "gateway_create (eventsClient_send (events_create eventsService_create) link)
           d usr req (Some k) svc
         = (\<lparr>outcome = (if 10000 < rtt then Inl TimeoutError else Inr (response rec)),
             subscriptions = 1, delays = []\<rparr>,
            svc\<lparr>handled := Suc (handled svc)\<rparr>)"
proof -
  let ?src = "eventsClient_send (events_create eventsService_create) link ''events.create''
                (create_message d usr req (Some k))"
  have hit: "events_create eventsService_create (create_message d usr req (Some k)) t
               (idempotency svc, database svc) = (Inr (response rec), idempotency svc, database svc)"
    using assms(1,2,4) by (simp add: events_create_def create_message_def checkAndStore_def falsy_def)
  have src: "?src svc = ((rtt, Inr (response rec)), svc\<lparr>handled := Suc (handled svc)\<rparr>)"
    using assms(3) hit by (simp add: eventsClient_send_def)
  show ?thesis
  proof (cases "10000 < rtt")
    case True
    have "timeout 10000 ?src svc = (Inl TimeoutError, svc\<lparr>handled := Suc (handled svc)\<rparr>)"
      using src True by (rule timeout_exceeded)
    then have "retryLoop \<lparr>maxAttempts = Some 1, delayMs = None, backoffMultiplier = None,
        retryableErrors = None\<rparr> (timeout 10000 ?src) 0 svc
      = (\<lparr>outcome = Inl TimeoutError, subscriptions = 1, delays = []\<rparr>,
         svc\<lparr>handled := Suc (handled svc)\<rparr>)"
      using TimeoutError_not_retryable by (rule retryLoop_not_retryable)
    then show ?thesis using True by (simp add: gateway_create_def retryWithBackoff_def)
  next
    case False
    then have "rtt \<le> 10000" by simp
    with src have "timeout 10000 ?src svc
        = (Inr (response rec), svc\<lparr>handled := Suc (handled svc)\<rparr>)"
      by (rule timeout_in_time)
    then have "retryLoop \<lparr>maxAttempts = Some 1, delayMs = None, backoffMultiplier = None,
        retryableErrors = None\<rparr> (timeout 10000 ?src) 0 svc
      = (\<lparr>outcome = Inr (response rec), subscriptions = 1, delays = []\<rparr>,
         svc\<lparr>handled := Suc (handled svc)\<rparr>)"
      by (rule retryLoop_success)
    then show ?thesis using False by (simp add: gateway_create_def retryWithBackoff_def)
  qed
qed

theorem cache_hit_one_remote_call_witness:
  "gateway_create (eventsClient_send (events_create demo_eventsService_create) demo_link)
      ''other dto'' demo_user demo_request (Some ''submit-42'') demo_service
     = (\<lparr>outcome = Inr ''SUBMITTED'', subscriptions = 1, delays = []\<rparr>,
        demo_service\<lparr>handled := Suc 0\<rparr>)"
proof -
  have h1: "''submit-42'' \<noteq> []" by simp
  have h2: "map_of (idempotency demo_service) ''submit-42'' = Some (demo_record 1000)"
    by (simp add: demo_service_def)
  have h3: "demo_link (handled demo_service) = (20, demo_clock 6000)"
    by (simp add: demo_link_def)
  have h4: "nowCheck (demo_clock 6000) - timestamp (demo_record 1000) < ttlMs"
    by (simp add: demo_defs ttlMs_def)
  from cache_hit_one_remote_call[of "''submit-42''" demo_service "demo_record 1000" demo_link 20
      "demo_clock 6000" demo_eventsService_create "''other dto''" demo_user demo_request,
      OF h1 h2 h3 h4]
  show ?thesis by (simp add: demo_service_def demo_record_def)
qed



end
